theory Spec2Isabelle
  imports Complex_Main
begin

section \<open>The call-centre queueing simulation of main.py\<close>

text \<open>
  The simulation runs on the discrete-event library simpy: customers are generators that
  suspend at \<^verbatim>\<open>yield\<close> and are resumed by the library's scheduler. The functions of
  main.py are embedded one by one. What a process reads from the library when it is
  resumed (the clock \<^verbatim>\<open>env.now\<close>, the outcome of the race between a request and a
  timeout, the occupancy of a resource) and what it draws from the two random sources
  is an input of the embedded function. Python numbers are exact here: counters are
  \<open>int\<close>, times and ratios are \<open>real\<close>.
\<close>

subsection \<open>Errors\<close>

datatype error =
    KeyError string
  | IndexError
  | ValueError
  | StatisticsError
  | ZeroDivisionError

text \<open>Sequencing of computations that may raise: the first exception ends the computation.\<close>

definition then_do :: "error + 'a \<Rightarrow> ('a \<Rightarrow> error + 'b) \<Rightarrow> error + 'b" where
  "then_do r f = (case r of Inl e \<Rightarrow> Inl e | Inr v \<Rightarrow> f v)"

text \<open>Subscription \<^verbatim>\<open>d[k]\<close> of a dictionary with string keys.\<close>

definition subscript :: "(string \<rightharpoonup> 'v) \<Rightarrow> string \<Rightarrow> error + 'v" where
  "subscript d k = (case d k of None \<Rightarrow> Inl (KeyError k) | Some v \<Rightarrow> Inr v)"

text \<open>Python's true division \<^verbatim>\<open>a / b\<close>.\<close>

definition true_div :: "real \<Rightarrow> real \<Rightarrow> error + real" where
  "true_div a b = (if b = 0 then Inl ZeroDivisionError else Inr (a / b))"

text \<open>\<^verbatim>\<open>statistics.mean\<close>: the arithmetic mean, StatisticsError on empty data.\<close>

definition mean :: "real list \<Rightarrow> error + real" where
  "mean xs = (if xs = [] then Inl StatisticsError else Inr (sum_list xs / real (length xs)))"

subsection \<open>Configuration\<close>

definition TOTAL_CUSTOMERS :: int where
  "TOTAL_CUSTOMERS = 30000"

record Param =
  mu :: real
  servers :: int

definition parameters :: "string \<rightharpoonup> Param" where
  "parameters = map_of
    [(''CRS'', \<lparr>mu = 1 / 2, servers = 10\<rparr>),
     (''AI/Robotics'', \<lparr>mu = 2, servers = 5\<rparr>),
     (''TSD'', \<lparr>mu = 5, servers = 5\<rparr>),
     (''PGT'', \<lparr>mu = 7, servers = 5\<rparr>),
     (''CSD'', \<lparr>mu = 5, servers = 15\<rparr>)]"

definition transition_probabilities :: "string \<rightharpoonup> (string \<times> real) list" where
  "transition_probabilities = map_of
    [(''CRS'', [(''TSD'', 1 / 10), (''AI/Robotics'', 3 / 10), (''PGT'', 1 / 10), (''CSD'', 5 / 10)]),
     (''TSD'', [(''CSD'', 2 / 10), (''Completed Support'', 8 / 10)]),
     (''PGT'', [(''CSD'', 2 / 10), (''Completed Support'', 8 / 10)]),
     (''AI/Robotics'', [(''CSD'', 3 / 10), (''TSD'', 1 / 10), (''PGT'', 1 / 10),
                        (''Completed Support'', 5 / 10)]),
     (''CSD'', [(''PGT'', 1 / 10), (''TSD'', 1 / 10), (''Completed Support'', 8 / 10)])]"

subsection \<open>Per-station statistics: class NodeStats\<close>

text \<open>
  A \<^verbatim>\<open>simpy.Resource\<close> as the statistics read it: the pending requests \<open>queue\<close> and
  the requests holding a slot \<open>users\<close>; \<^verbatim>\<open>count.count\<close> is the number of users.
\<close>

record Resource =
  capacity :: int
  queue :: "nat list"
  users :: "nat list"

record NodeStats =
  waiting_times :: "real list"
  service_times :: "real list"
  queue_lengths :: "nat list"
  utilization :: "real list"
  abandonment_count :: int

definition NodeStats_init :: NodeStats where
  "NodeStats_init =
    \<lparr>waiting_times = [], service_times = [], queue_lengths = [], utilization = [],
     abandonment_count = 0\<rparr>"

definition customer_abandoned :: "NodeStats \<Rightarrow> NodeStats" where
  "customer_abandoned self = self\<lparr>abandonment_count := abandonment_count self + 1\<rparr>"

definition add_stats :: "NodeStats \<Rightarrow> real \<Rightarrow> real \<Rightarrow> Resource \<Rightarrow> int \<Rightarrow> error + NodeStats" where
  "add_stats self wait service count srv =
    then_do (true_div (real (length (users count))) (real_of_int srv)) (\<lambda>u.
      Inr (self\<lparr>waiting_times := waiting_times self @ [wait],
                service_times := service_times self @ [service],
                queue_lengths := queue_lengths self @ [length (queue count)],
                utilization := utilization self @ [u]\<rparr>))"

record Metrics =
  average_waiting_time :: real
  average_service_time :: real
  average_queue_length :: real
  average_utilization :: real
  abandonment_rate :: real

definition compute_metrics :: "NodeStats \<Rightarrow> error + Metrics" where
  "compute_metrics self =
    (let total_customers = int (length (waiting_times self)) + abandonment_count self in
     then_do (if waiting_times self \<noteq> [] then mean (waiting_times self) else Inr 0) (\<lambda>w.
     then_do (if service_times self \<noteq> [] then mean (service_times self) else Inr 0) (\<lambda>s.
     then_do (if queue_lengths self \<noteq> [] then mean (map real (queue_lengths self)) else Inr 0) (\<lambda>q.
     then_do (if utilization self \<noteq> [] then mean (utilization self) else Inr 0) (\<lambda>u.
     then_do (if total_customers \<noteq> 0
              then true_div (real_of_int (abandonment_count self)) (real_of_int total_customers)
              else Inr 0) (\<lambda>a.
       Inr \<lparr>average_waiting_time = w, average_service_time = s, average_queue_length = q,
            average_utilization = u, abandonment_rate = a\<rparr>))))))"

subsection \<open>Global statistics: class GeneStats\<close>

record GeneStats =
  first_call_resolution_count :: int
  transfer_count :: int

definition GeneStats_init :: GeneStats where
  "GeneStats_init = \<lparr>first_call_resolution_count = 0, transfer_count = 0\<rparr>"

subsection \<open>The customer process\<close>

text \<open>
  What one pass through the body of the loop of \<^verbatim>\<open>customer\<close> reads from the
  library and from the random source: the clock on arrival at the station, whether the
  request is among the events of the result of \<^verbatim>\<open>request | env.timeout(0.5)\<close>, the
  clock when the process is resumed after that race, the value
  \<^verbatim>\<open>random.expovariate\<close> returns, and the station's resource as \<^verbatim>\<open>add_stats\<close>
  reads it.
\<close>

record visit_obs =
  arrival_time :: real
  request_in_result :: bool
  resumed_at :: real
  service_draw :: real
  resource_seen :: Resource

text \<open>
  The registry \<^verbatim>\<open>node_stats\<close> is the state. The registry \<^verbatim>\<open>nodes\<close> of resources
  has the keys of the global \<open>parameters\<close>, from which it is built.
\<close>

definition node_stats_init :: "string \<rightharpoonup> NodeStats" where
  "node_stats_init = (\<lambda>node. map_option (\<lambda>_. NodeStats_init) (parameters node))"

text \<open>
  The body of the loop at one station. The result says whether the loop goes on to the
  next station (\<open>True\<close>) or the process has returned (\<open>False\<close>).
\<close>

definition visit ::
  "(string \<rightharpoonup> Param) \<Rightarrow> string \<Rightarrow> visit_obs \<Rightarrow> (string \<rightharpoonup> NodeStats)
     \<Rightarrow> error + (bool \<times> (string \<rightharpoonup> NodeStats))" where
  "visit params node ob node_stats =
    then_do (subscript parameters node) (\<lambda>_.
      if \<not> request_in_result ob then
        then_do (subscript node_stats node) (\<lambda>s.
        let s1 = customer_abandoned s;
            wait = resumed_at ob - arrival_time ob in
        then_do (subscript params node) (\<lambda>p.
        then_do (add_stats s1 wait 0 (resource_seen ob) (servers p)) (\<lambda>s2.
          Inr (False, node_stats(node \<mapsto> s2)))))
      else
        let wait = resumed_at ob - arrival_time ob in
        then_do (subscript params node) (\<lambda>p.
        then_do (true_div 1 (mu p)) (\<lambda>rate.
        let service_time = service_draw ob in
        then_do (subscript node_stats node) (\<lambda>s.
        then_do (add_stats s wait service_time (resource_seen ob) (servers p)) (\<lambda>s2.
          Inr (True, node_stats(node \<mapsto> s2)))))))"

fun customer ::
  "(string \<rightharpoonup> Param) \<Rightarrow> string list \<Rightarrow> (nat \<Rightarrow> visit_obs) \<Rightarrow> (string \<rightharpoonup> NodeStats)
     \<Rightarrow> error + (string \<rightharpoonup> NodeStats)" where
  "customer params [] obs node_stats = Inr node_stats"
| "customer params (node # pathway) obs node_stats =
    (case visit params node (obs 0) node_stats of
       Inl e \<Rightarrow> Inl e
     | Inr (continue, node_stats') \<Rightarrow>
         if continue then customer params pathway (\<lambda>k. obs (Suc k)) node_stats'
         else Inr node_stats')"

text \<open>
  The processes of all customers run interleaved, and the scheduler resumes one at a
  time: between two suspensions a process runs alone, so each pass through the loop body
  writes its statistics in one piece. A run of the simulation is therefore a sequence of
  such passes, in the order in which they write, each at some station.
\<close>

fun run_visits ::
  "(string \<rightharpoonup> Param) \<Rightarrow> (string \<times> visit_obs) list \<Rightarrow> (string \<rightharpoonup> NodeStats)
     \<Rightarrow> error + (string \<rightharpoonup> NodeStats)" where
  "run_visits params [] node_stats = Inr node_stats"
| "run_visits params ((node, ob) # evs) node_stats =
    (case visit params node ob node_stats of
       Inl e \<Rightarrow> Inl e
     | Inr (continue, node_stats') \<Rightarrow> run_visits params evs node_stats')"

text \<open>The passes one customer makes: along its pathway, up to its first abandonment.\<close>

fun visits_of :: "string list \<Rightarrow> (nat \<Rightarrow> visit_obs) \<Rightarrow> (string \<times> visit_obs) list" where
  "visits_of [] obs = []"
| "visits_of (node # pathway) obs =
    (node, obs 0) #
      (if request_in_result (obs 0) then visits_of pathway (\<lambda>k. obs (Suc k)) else [])"

text \<open>The passes of a run at one station, and what each of them records.\<close>

definition visits_at :: "string \<Rightarrow> (string \<times> visit_obs) list \<Rightarrow> visit_obs list" where
  "visits_at node evs = map snd (filter (\<lambda>e. fst e = node) evs)"

definition wait_of :: "visit_obs \<Rightarrow> real" where
  "wait_of ob = resumed_at ob - arrival_time ob"

definition service_of :: "visit_obs \<Rightarrow> real" where
  "service_of ob = (if request_in_result ob then service_draw ob else 0)"

definition recorded :: "NodeStats \<Rightarrow> visit_obs \<Rightarrow> int \<Rightarrow> NodeStats" where
  "recorded s ob srv =
    s\<lparr>waiting_times := waiting_times s @ [wait_of ob],
      service_times := service_times s @ [service_of ob],
      queue_lengths := queue_lengths s @ [length (queue (resource_seen ob))],
      utilization := utilization s @ [real (length (users (resource_seen ob))) / real_of_int srv],
      abandonment_count := abandonment_count s + (if request_in_result ob then 0 else 1)\<rparr>"

text \<open>
  What the library and the random source guarantee of an observation at a station: the
  clock does not run backwards, an exponential variate is not negative, and a resource
  never has more users than its capacity, which is the station's number of servers.
\<close>

definition obs_ok :: "string \<Rightarrow> visit_obs \<Rightarrow> bool" where
  "obs_ok node ob =
    (arrival_time ob \<le> resumed_at ob \<and> 0 \<le> service_draw ob \<and>
     (case parameters node of
        None \<Rightarrow> False
      | Some p \<Rightarrow> int (length (users (resource_seen ob))) \<le> servers p))"

subsection \<open>Routing: weighted_random_choice and customer_pathway\<close>

text \<open>
  The numpy generator is the list of the uniform variates in [0, 1) it returns next, one
  for each call of \<^verbatim>\<open>np.random.choice\<close>. The list is finite: a computation that asks
  for a variate when none is left has no result here (\<open>None\<close>), which is also what the
  loop of \<^verbatim>\<open>customer_pathway\<close> gives when the variates never lead it to the terminal
  state.

  \<^verbatim>\<open>np.random.choice(a, p=p)\<close> checks its arguments (a not empty, p of the length of
  a, no negative probability, the probabilities sum to 1 within the tolerance
  \<open>sqrt(eps)\<close> of float64), draws one uniform variate and returns the element of a at
  the position where the variate falls in the normalised cumulative sums of p
  (\<^verbatim>\<open>cdf.searchsorted(u, side='right')\<close>).
\<close>

definition atol :: real where
  "atol = 1 / 2 ^ 26"

fun cumsum :: "real list \<Rightarrow> real \<Rightarrow> real list" where
  "cumsum [] acc = []"
| "cumsum (p # ps) acc = (acc + p) # cumsum ps (acc + p)"

definition searchsorted_right :: "real list \<Rightarrow> real \<Rightarrow> nat" where
  "searchsorted_right cdf u = length (takeWhile (\<lambda>c. c \<le> u) cdf)"

definition np_random_choice ::
  "string list \<Rightarrow> real list \<Rightarrow> real list \<Rightarrow> (error + string \<times> real list) option" where
  "np_random_choice a p draws =
    (if a = [] then Some (Inl ValueError)
     else if length p \<noteq> length a then Some (Inl ValueError)
     else if (\<exists>x \<in> set p. x < 0) then Some (Inl ValueError)
     else if \<bar>sum_list p - 1\<bar> > atol then Some (Inl ValueError)
     else
       (case draws of
          [] \<Rightarrow> None
        | u # draws' \<Rightarrow>
            let cdf = map (\<lambda>c. c / last (cumsum p 0)) (cumsum p 0);
                idx = searchsorted_right cdf u
            in if idx < length a then Some (Inr (a ! idx, draws'))
               else Some (Inl IndexError)))"

text \<open>\<^verbatim>\<open>zip(*choices)\<close> cannot be unpacked into two names when choices is empty.\<close>

definition weighted_random_choice ::
  "(string \<times> real) list \<Rightarrow> real list \<Rightarrow> (error + string \<times> real list) option" where
  "weighted_random_choice choices draws =
    (if choices = [] then Some (Inl ValueError)
     else np_random_choice (map fst choices) (map snd choices) draws)"

text \<open>The loop of \<^verbatim>\<open>customer_pathway\<close>; each turn takes one variate.\<close>

function pathway_loop ::
  "(string \<rightharpoonup> (string \<times> real) list) \<Rightarrow> string \<Rightarrow> string list \<Rightarrow> real list
     \<Rightarrow> (error + string list \<times> real list) option" where
  "pathway_loop tp current_node pathway draws =
    (if current_node \<noteq> ''Completed Support'' then
       (case tp current_node of
          None \<Rightarrow> Some (Inl (KeyError current_node))
        | Some next_nodes \<Rightarrow>
            (case weighted_random_choice next_nodes draws of
               None \<Rightarrow> None
             | Some (Inl e) \<Rightarrow> Some (Inl e)
             | Some (Inr (next_node, draws')) \<Rightarrow>
                 if next_node = ''Completed Support'' then Some (Inr (pathway, draws'))
                 else pathway_loop tp next_node (pathway @ [next_node]) draws'))
     else Some (Inr (pathway, draws)))"
  by pat_completeness auto
termination
  by (relation "measure (\<lambda>(tp, current_node, pathway, draws). length draws)")
     (auto simp: weighted_random_choice_def np_random_choice_def Let_def
           split: if_splits list.splits)

declare pathway_loop.simps [simp del]

text \<open>
  \<^verbatim>\<open>customer_pathway\<close> up to its \<^verbatim>\<open>yield\<close>: the pathway, the global statistics
  after the classification, and the variates left. The customer process it then starts
  is \<open>customer\<close> above.
\<close>

definition customer_pathway ::
  "(string \<rightharpoonup> (string \<times> real) list) \<Rightarrow> real list \<Rightarrow> GeneStats
     \<Rightarrow> (error + string list \<times> GeneStats \<times> real list) option" where
  "customer_pathway tp draws gene_stats =
    (case pathway_loop tp ''CRS'' [''CRS''] draws of
       None \<Rightarrow> None
     | Some (Inl e) \<Rightarrow> Some (Inl e)
     | Some (Inr (pathway, draws')) \<Rightarrow>
         Some (Inr (pathway,
           (if length pathway = 2
            then gene_stats\<lparr>first_call_resolution_count :=
                   first_call_resolution_count gene_stats + 1\<rparr>
            else gene_stats\<lparr>transfer_count :=
                   transfer_count gene_stats + (int (length pathway) - 2)\<rparr>),
           draws')))"

subsection \<open>The arrival process\<close>

text \<open>The decimal digits of a number, as the f-string \<^verbatim>\<open>f'Customer_{i}'\<close> formats it.\<close>

fun str_nat :: "nat \<Rightarrow> string" where
  "str_nat n =
    (if n < 10 then [''0123456789'' ! n]
     else str_nat (n div 10) @ [''0123456789'' ! (n mod 10)])"

definition customer_id :: "nat \<Rightarrow> string" where
  "customer_id i = ''Customer_'' @ str_nat i"

text \<open>
  \<^verbatim>\<open>customer_arrivals\<close>: the processes it starts, each with the identifier it passes
  and the time of the clock at which it starts it. \<open>draws i\<close> is the exponential variate
  drawn in turn i of the loop, after which the generator sleeps for that time.
\<close>

fun customer_arrivals_loop :: "nat list \<Rightarrow> real \<Rightarrow> (nat \<Rightarrow> real) \<Rightarrow> (string \<times> real) list" where
  "customer_arrivals_loop [] now draws = []"
| "customer_arrivals_loop (i # is) now draws =
     (customer_id i, now) # customer_arrivals_loop is (now + draws i) draws"

definition customer_arrivals :: "(nat \<Rightarrow> real) \<Rightarrow> (string \<times> real) list" where
  "customer_arrivals draws = customer_arrivals_loop [0 ..< nat TOTAL_CUSTOMERS] 0 draws"

text \<open>
  The scheduler starts the customer processes in the order in which the arrival process
  created them, and each constructs its pathway and classifies it before it suspends for
  the first time. So the pathways are constructed one customer after the other, all on
  the same global statistics and the same numpy generator.
\<close>

fun construct_paths ::
  "(string \<rightharpoonup> (string \<times> real) list) \<Rightarrow> string list \<Rightarrow> real list \<Rightarrow> GeneStats
     \<Rightarrow> (error + string list list \<times> GeneStats \<times> real list) option" where
  "construct_paths tp [] draws gene_stats = Some (Inr ([], gene_stats, draws))"
| "construct_paths tp (c # cs) draws gene_stats =
    (case customer_pathway tp draws gene_stats of
       None \<Rightarrow> None
     | Some (Inl e) \<Rightarrow> Some (Inl e)
     | Some (Inr (pathway, gene_stats', draws')) \<Rightarrow>
         (case construct_paths tp cs draws' gene_stats' of
            None \<Rightarrow> None
          | Some (Inl e) \<Rightarrow> Some (Inl e)
          | Some (Inr (paths, gene_stats'', draws'')) \<Rightarrow>
              Some (Inr (pathway # paths, gene_stats'', draws''))))"





text \<open>What a sequence of passes at one station records there, pass by pass.\<close>

fun record_all :: "NodeStats \<Rightarrow> visit_obs list \<Rightarrow> int \<Rightarrow> NodeStats" where
  "record_all s [] srv = s"
| "record_all s (ob # obs) srv = record_all (recorded s ob srv) obs srv"

text \<open>
  The two outcomes of a pass, as they show in the station's statistics: a completed
  service appends the sample with the drawn service time and leaves the abandonment
  counter alone; an abandonment appends the sample with service time 0 and adds one to
  the counter.
\<close>

definition completed_recorded :: "NodeStats \<Rightarrow> NodeStats \<Rightarrow> visit_obs \<Rightarrow> int \<Rightarrow> bool" where
  "completed_recorded s s' ob srv \<longleftrightarrow>
    s' = s\<lparr>waiting_times := waiting_times s @ [resumed_at ob - arrival_time ob],
            service_times := service_times s @ [service_draw ob],
            queue_lengths := queue_lengths s @ [length (queue (resource_seen ob))],
            utilization := utilization s @
              [real (length (users (resource_seen ob))) / real_of_int srv]\<rparr>"

definition abandonment_recorded :: "NodeStats \<Rightarrow> NodeStats \<Rightarrow> visit_obs \<Rightarrow> int \<Rightarrow> bool" where
  "abandonment_recorded s s' ob srv \<longleftrightarrow>
    s' = s\<lparr>waiting_times := waiting_times s @ [resumed_at ob - arrival_time ob],
            service_times := service_times s @ [0],
            queue_lengths := queue_lengths s @ [length (queue (resource_seen ob))],
            utilization := utilization s @
              [real (length (users (resource_seen ob))) / real_of_int srv],
            abandonment_count := abandonment_count s + 1\<rparr>"

text \<open>
  Two observations for the examples: a customer served at once by a free station, and a
  customer whose half minute of patience ran out in the queue of a full station.
\<close>

definition example_served :: visit_obs where
  "example_served =
    \<lparr>arrival_time = 0, request_in_result = True, resumed_at = 0, service_draw = 1 / 4,
     resource_seen = \<lparr>capacity = 10, queue = [], users = [0]\<rparr>\<rparr>"

definition example_abandoned :: visit_obs where
  "example_abandoned =
    \<lparr>arrival_time = 3, request_in_result = False, resumed_at = 7 / 2, service_draw = 0,
     resource_seen = \<lparr>capacity = 10, queue = [10], users = [0, 1, 2, 3, 4, 5, 6, 7, 8, 9]\<rparr>\<rparr>"

text \<open>
  The metrics \<^verbatim>\<open>print_performance_metrics\<close> computes for a station once the run is
  over.
\<close>

definition performance_metrics :: "(string \<times> visit_obs) list \<Rightarrow> string \<Rightarrow> error + Metrics" where
  "performance_metrics evs node =
    then_do (run_visits parameters evs node_stats_init) (\<lambda>node_stats.
    then_do (subscript node_stats node) compute_metrics)"

section \<open>Metrics of a station without samples\<close>

text \<open>
  C8: compute_metrics on a station for which no sample and no abandonment was ever
  recorded (the state NodeStats() creates) raises nothing and returns 0 for the average
  waiting time, the average service time, the average queue length, the average
  utilization and the abandonment rate.
\<close>

theorem compute_metrics_empty_station:
  "compute_metrics NodeStats_init =
     Inr \<lparr>average_waiting_time = 0, average_service_time = 0, average_queue_length = 0,
          average_utilization = 0, abandonment_rate = 0\<rparr>"
  by (simp add: compute_metrics_def NodeStats_init_def then_do_def)

section \<open>One pass of a customer at a station\<close>

lemma parameters_positive:
  "parameters node = Some p \<Longrightarrow> 0 < servers p \<and> 0 < mu p"
  by (auto simp: parameters_def split: if_splits)

lemma visit_eq:
  assumes "parameters node = Some p" and "node_stats node = Some s"
  shows "visit parameters node ob node_stats =
           Inr (request_in_result ob, node_stats(node \<mapsto> recorded s ob (servers p)))"
  using assms parameters_positive[OF assms(1)]
  by (cases s) (simp add: visit_def then_do_def subscript_def add_stats_def true_div_def
      customer_abandoned_def recorded_def wait_of_def service_of_def Let_def)

lemma visit_continue:
  "visit params node ob node_stats = Inr (c, node_stats') \<Longrightarrow> c = request_in_result ob"
  by (auto simp: visit_def then_do_def subscript_def Let_def
      split: option.splits if_splits sum.splits)

lemma visit_defined:
  "visit parameters node ob node_stats = Inr (c, node_stats') \<Longrightarrow>
     \<exists>p s. parameters node = Some p \<and> node_stats node = Some s"
  by (auto simp: visit_def then_do_def subscript_def Let_def
      split: option.splits if_splits sum.splits)

lemma recorded_completed:
  "request_in_result ob \<Longrightarrow> completed_recorded s (recorded s ob srv) ob srv"
  by (cases s) (simp add: completed_recorded_def recorded_def wait_of_def service_of_def)

lemma recorded_abandonment:
  "\<not> request_in_result ob \<Longrightarrow> abandonment_recorded s (recorded s ob srv) ob srv"
  by (cases s) (simp add: abandonment_recorded_def recorded_def wait_of_def service_of_def)

lemma outcomes_exclusive:
  "\<not> (completed_recorded s s' ob srv \<and> abandonment_recorded s s' ob srv)"
proof
  assume a: "completed_recorded s s' ob srv \<and> abandonment_recorded s s' ob srv"
  then have "abandonment_count s' = abandonment_count s"
    by (simp add: completed_recorded_def)
  moreover from a have "abandonment_count s' = abandonment_count s + 1"
    by (simp add: abandonment_recorded_def)
  ultimately show False by simp
qed

text \<open>
  C4: a pass that a customer begins at a station of the configuration runs to its end
  and records exactly one of the two outcomes in that station's statistics: the
  completed-service sample when the request is in the result of the race, the
  abandonment when it is not; never both and never neither.
\<close>

theorem visit_records_exactly_one_outcome:
  assumes "parameters node = Some p" and "node_stats node = Some s"
  shows "\<exists>s'. visit parameters node ob node_stats =
                 Inr (request_in_result ob, node_stats(node \<mapsto> s')) \<and>
              completed_recorded s s' ob (servers p) = request_in_result ob \<and>
              abandonment_recorded s s' ob (servers p) = (\<not> request_in_result ob)"
proof (intro exI conjI)
  show "visit parameters node ob node_stats =
          Inr (request_in_result ob, node_stats(node \<mapsto> recorded s ob (servers p)))"
    using assms visit_eq[of node p node_stats s ob] by simp
  show "completed_recorded s (recorded s ob (servers p)) ob (servers p) = request_in_result ob"
    using recorded_completed[of ob s "servers p"] recorded_abandonment[of ob s "servers p"]
      outcomes_exclusive[of s "recorded s ob (servers p)" ob "servers p"] by blast
  show "abandonment_recorded s (recorded s ob (servers p)) ob (servers p) =
          (\<not> request_in_result ob)"
    using recorded_completed[of ob s "servers p"] recorded_abandonment[of ob s "servers p"]
      outcomes_exclusive[of s "recorded s ob (servers p)" ob "servers p"] by blast
qed

theorem visit_records_exactly_one_outcome_witness:
  "parameters ''CRS'' = Some \<lparr>mu = 1 / 2, servers = 10\<rparr> \<and>
   node_stats_init ''CRS'' = Some NodeStats_init \<and>
   (\<exists>s'. visit parameters ''CRS'' example_abandoned node_stats_init =
            Inr (request_in_result example_abandoned, node_stats_init(''CRS'' \<mapsto> s')) \<and>
          completed_recorded NodeStats_init s' example_abandoned 10 =
            request_in_result example_abandoned \<and>
          abandonment_recorded NodeStats_init s' example_abandoned 10 =
            (\<not> request_in_result example_abandoned))"
proof -
  have p: "parameters ''CRS'' = Some \<lparr>mu = 1 / 2, servers = 10\<rparr>"
    by (simp add: parameters_def)
  have s: "node_stats_init ''CRS'' = Some NodeStats_init"
    by (simp add: node_stats_init_def parameters_def)
  show ?thesis
    using p s visit_records_exactly_one_outcome
      [of "''CRS''" "\<lparr>mu = 1 / 2, servers = 10\<rparr>" node_stats_init NodeStats_init
          example_abandoned]
    by simp
qed

text \<open>
  C5: when the request is not in the result of the race at a station of the pathway, the
  customer process adds one to that station's abandonment counter, appends one sample
  whose wait is the time elapsed since the arrival at the station and whose service time
  is 0, and returns: the rest of the pathway is not visited, and no other statistics
  change.
\<close>

theorem abandonment_ends_customer:
  assumes "parameters node = Some p" and "node_stats node = Some s"
    and "\<not> request_in_result (obs 0)"
  shows "customer parameters (node # rest) obs node_stats =
           Inr (node_stats(node \<mapsto>
             s\<lparr>waiting_times := waiting_times s @ [resumed_at (obs 0) - arrival_time (obs 0)],
               service_times := service_times s @ [0],
               queue_lengths := queue_lengths s @ [length (queue (resource_seen (obs 0)))],
               utilization := utilization s @
                 [real (length (users (resource_seen (obs 0)))) / real_of_int (servers p)],
               abandonment_count := abandonment_count s + 1\<rparr>)) \<and>
         visits_of (node # rest) obs = [(node, obs 0)]"
proof -
  have "recorded s (obs 0) (servers p) =
          s\<lparr>waiting_times := waiting_times s @ [resumed_at (obs 0) - arrival_time (obs 0)],
               service_times := service_times s @ [0],
               queue_lengths := queue_lengths s @ [length (queue (resource_seen (obs 0)))],
               utilization := utilization s @
                 [real (length (users (resource_seen (obs 0)))) / real_of_int (servers p)],
               abandonment_count := abandonment_count s + 1\<rparr>"
    using recorded_abandonment[OF assms(3), of s "servers p"]
    by (simp add: abandonment_recorded_def)
  then show ?thesis
    using visit_eq[of node p node_stats s "obs 0"] assms by simp
qed

theorem abandonment_ends_customer_witness:
  "parameters ''CRS'' = Some \<lparr>mu = 1 / 2, servers = 10\<rparr> \<and>
   node_stats_init ''CRS'' = Some NodeStats_init \<and>
   \<not> request_in_result ((\<lambda>k. example_abandoned) 0) \<and>
   customer parameters [''CRS'', ''CSD'', ''TSD''] (\<lambda>k. example_abandoned) node_stats_init =
     Inr (node_stats_init(''CRS'' \<mapsto>
       \<lparr>waiting_times = [1 / 2], service_times = [0], queue_lengths = [1],
        utilization = [1], abandonment_count = 1\<rparr>))"
proof -
  have p: "parameters ''CRS'' = Some \<lparr>mu = 1 / 2, servers = 10\<rparr>"
    by (simp add: parameters_def)
  have s: "node_stats_init ''CRS'' = Some NodeStats_init"
    by (simp add: node_stats_init_def parameters_def)
  have a: "\<not> request_in_result ((\<lambda>k. example_abandoned) 0)"
    by (simp add: example_abandoned_def)
  show ?thesis
    using p s a abandonment_ends_customer
      [of "''CRS''" "\<lparr>mu = 1 / 2, servers = 10\<rparr>" node_stats_init NodeStats_init
          "\<lambda>k. example_abandoned" "[''CSD'', ''TSD'']"]
    by (simp add: example_abandoned_def NodeStats_init_def)
qed

section \<open>Runs of the simulation\<close>

lemma customer_run_visits:
  "customer params pathway obs node_stats = run_visits params (visits_of pathway obs) node_stats"
proof (induction pathway arbitrary: obs node_stats)
  case Nil
  show ?case by simp
next
  case (Cons node pathway)
  show ?case
  proof (cases "visit params node (obs 0) node_stats")
    case (Inl e)
    then show ?thesis by simp
  next
    case (Inr r)
    obtain c st' where r: "r = (c, st')" by (cases r)
    have c: "c = request_in_result (obs 0)"
      using Inr r visit_continue by blast
    show ?thesis using Inr r c Cons.IH by simp
  qed
qed

lemma run_visits_station:
  assumes "run_visits parameters evs st0 = Inr st"
    and "st0 node = Some s0" and "parameters node = Some p"
  shows "st node = Some (record_all s0 (visits_at node evs) (servers p))"
  using assms
proof (induction evs arbitrary: st0 s0)
  case Nil
  then show ?case by (simp add: visits_at_def)
next
  case (Cons e evs)
  obtain n ob where e: "e = (n, ob)" by (cases e)
  from Cons.prems(1) e obtain c st1 where v: "visit parameters n ob st0 = Inr (c, st1)"
    and r: "run_visits parameters evs st1 = Inr st"
    by (auto split: sum.splits)
  from visit_defined[OF v] obtain pn sn where pn: "parameters n = Some pn" and sn: "st0 n = Some sn"
    by blast
  have st1: "st1 = st0(n \<mapsto> recorded sn ob (servers pn))"
    using v visit_eq[of n pn st0 sn ob] pn sn by simp
  show ?case
  proof (cases "n = node")
    case True
    then have "st1 node = Some (recorded s0 ob (servers p))"
      using st1 sn pn Cons.prems by simp
    from Cons.IH[OF r this Cons.prems(3)] show ?thesis
      using True e by (simp add: visits_at_def)
  next
    case False
    then have "st1 node = Some s0" using st1 Cons.prems by simp
    from Cons.IH[OF r this Cons.prems(3)] show ?thesis
      using False e by (simp add: visits_at_def)
  qed
qed

lemma run_visits_total:
  assumes "\<forall>e \<in> set evs. parameters (fst e) \<noteq> None"
    and "\<forall>n. parameters n \<noteq> None \<longrightarrow> st0 n \<noteq> None"
  shows "\<exists>st. run_visits parameters evs st0 = Inr st"
  using assms
proof (induction evs arbitrary: st0)
  case Nil
  show ?case by simp
next
  case (Cons e evs)
  obtain n ob where e: "e = (n, ob)" by (cases e)
  from Cons.prems e obtain pn sn where pn: "parameters n = Some pn" and sn: "st0 n = Some sn"
    by fastforce
  have v: "visit parameters n ob st0 = Inr (request_in_result ob, st0(n \<mapsto> recorded sn ob (servers pn)))"
    using visit_eq[of n pn st0 sn ob] pn sn by simp
  have "\<exists>st. run_visits parameters evs (st0(n \<mapsto> recorded sn ob (servers pn))) = Inr st"
    using Cons.prems by (intro Cons.IH) auto
  then show ?case using v e by simp
qed

lemma record_all_waiting: "waiting_times (record_all s obs srv) = waiting_times s @ map wait_of obs"
  by (induction obs arbitrary: s) (simp_all add: recorded_def)

lemma record_all_service: "service_times (record_all s obs srv) = service_times s @ map service_of obs"
  by (induction obs arbitrary: s) (simp_all add: recorded_def)

lemma record_all_queue:
  "queue_lengths (record_all s obs srv) =
     queue_lengths s @ map (\<lambda>ob. length (queue (resource_seen ob))) obs"
  by (induction obs arbitrary: s) (simp_all add: recorded_def)

lemma record_all_utilization:
  "utilization (record_all s obs srv) =
     utilization s @ map (\<lambda>ob. real (length (users (resource_seen ob))) / real_of_int srv) obs"
  by (induction obs arbitrary: s) (simp_all add: recorded_def)

lemma record_all_abandonment:
  "abandonment_count (record_all s obs srv) =
     abandonment_count s + int (length (filter (\<lambda>ob. \<not> request_in_result ob) obs))"
  by (induction obs arbitrary: s) (simp_all add: recorded_def)

lemma compute_metrics_eq:
  "compute_metrics s =
     Inr \<lparr>average_waiting_time =
            (if waiting_times s = [] then 0
             else sum_list (waiting_times s) / real (length (waiting_times s))),
          average_service_time =
            (if service_times s = [] then 0
             else sum_list (service_times s) / real (length (service_times s))),
          average_queue_length =
            (if queue_lengths s = [] then 0
             else sum_list (map real (queue_lengths s)) / real (length (queue_lengths s))),
          average_utilization =
            (if utilization s = [] then 0
             else sum_list (utilization s) / real (length (utilization s))),
          abandonment_rate =
            (if int (length (waiting_times s)) + abandonment_count s = 0 then 0
             else real_of_int (abandonment_count s) /
                  real_of_int (int (length (waiting_times s)) + abandonment_count s))\<rparr>"
  by (simp add: compute_metrics_def then_do_def mean_def true_div_def Let_def)

lemma init_station:
  "parameters node = Some p \<Longrightarrow> node_stats_init node = Some NodeStats_init"
  by (simp add: node_stats_init_def)

lemma station_after_run:
  assumes "run_visits parameters evs node_stats_init = Inr st" and "parameters node = Some p"
  shows "st node = Some (record_all NodeStats_init (visits_at node evs) (servers p))"
  using run_visits_station[OF assms(1) init_station[OF assms(2)] assms(2)] .

lemma example_run:
  "run_visits parameters [(''CRS'', example_abandoned), (''CRS'', example_served)] node_stats_init =
     Inr (node_stats_init(''CRS'' \<mapsto>
       \<lparr>waiting_times = [1 / 2, 0], service_times = [0, 1 / 4], queue_lengths = [1, 0],
        utilization = [1, 1 / 10], abandonment_count = 1\<rparr>))"
  by (simp add: visit_def then_do_def subscript_def parameters_def node_stats_init_def
      NodeStats_init_def add_stats_def true_div_def customer_abandoned_def
      example_abandoned_def example_served_def)

text \<open>
  C10: every pass that ends in an abandonment appends the abandoning customer's elapsed
  wait to the station's waiting times, paired with the service time 0. So after a run the
  waiting times of a station have one entry for each pass there, completed or abandoned,
  the abandonment counter counts the abandoned ones, and the reported average waiting
  time is the mean of the waits of all passes, abandoned ones included.
\<close>

theorem abandonments_in_waiting_times:
  assumes "run_visits parameters evs node_stats_init = Inr st" and "parameters node = Some p"
  shows "\<exists>s m. st node = Some s \<and>
           waiting_times s = map wait_of (visits_at node evs) \<and>
           service_times s = map service_of (visits_at node evs) \<and>
           (\<forall>i < length (visits_at node evs). \<not> request_in_result (visits_at node evs ! i) \<longrightarrow>
              waiting_times s ! i =
                resumed_at (visits_at node evs ! i) - arrival_time (visits_at node evs ! i) \<and>
              service_times s ! i = 0) \<and>
           abandonment_count s =
             int (length (filter (\<lambda>ob. \<not> request_in_result ob) (visits_at node evs))) \<and>
           length (waiting_times s) =
             length (filter request_in_result (visits_at node evs)) +
             length (filter (\<lambda>ob. \<not> request_in_result ob) (visits_at node evs)) \<and>
           compute_metrics s = Inr m \<and>
           average_waiting_time m =
             (if visits_at node evs = [] then 0
              else sum_list (map wait_of (visits_at node evs)) /
                   real (length (visits_at node evs)))"
proof -
  let ?vs = "visits_at node evs"
  let ?s = "record_all NodeStats_init ?vs (servers p)"
  have w: "waiting_times ?s = map wait_of ?vs"
    by (simp add: record_all_waiting NodeStats_init_def)
  have sv: "service_times ?s = map service_of ?vs"
    by (simp add: record_all_service NodeStats_init_def)
  have a: "abandonment_count ?s = int (length (filter (\<lambda>ob. \<not> request_in_result ob) ?vs))"
    by (simp add: record_all_abandonment NodeStats_init_def)
  have l: "length (waiting_times ?s) =
             length (filter request_in_result ?vs) +
             length (filter (\<lambda>ob. \<not> request_in_result ob) ?vs)"
    using w sum_length_filter_compl[of request_in_result ?vs] by simp
  have ix: "\<forall>i < length ?vs. \<not> request_in_result (?vs ! i) \<longrightarrow>
              waiting_times ?s ! i = resumed_at (?vs ! i) - arrival_time (?vs ! i) \<and>
              service_times ?s ! i = 0"
    using w sv by (simp add: wait_of_def service_of_def)
  obtain m where m: "compute_metrics ?s = Inr m" using compute_metrics_eq by blast
  have awt: "average_waiting_time m =
             (if ?vs = [] then 0 else sum_list (map wait_of ?vs) / real (length ?vs))"
    using m w by (auto simp: compute_metrics_eq)
  show ?thesis
    using station_after_run[OF assms] w sv a l ix m awt by blast
qed

theorem abandonments_in_waiting_times_witness:
  "run_visits parameters [(''CRS'', example_abandoned), (''CRS'', example_served)] node_stats_init =
     Inr (node_stats_init(''CRS'' \<mapsto>
       \<lparr>waiting_times = [1 / 2, 0], service_times = [0, 1 / 4], queue_lengths = [1, 0],
        utilization = [1, 1 / 10], abandonment_count = 1\<rparr>)) \<and>
   parameters ''CRS'' = Some \<lparr>mu = 1 / 2, servers = 10\<rparr> \<and>
   (\<exists>m. compute_metrics
          \<lparr>waiting_times = [1 / 2, 0], service_times = [0, 1 / 4], queue_lengths = [1, 0],
           utilization = [1, 1 / 10], abandonment_count = 1\<rparr> = Inr m \<and>
        average_waiting_time m = 1 / 4)"
proof -
  let ?evs = "[(''CRS'', example_abandoned), (''CRS'', example_served)]"
  have p: "parameters ''CRS'' = Some \<lparr>mu = 1 / 2, servers = 10\<rparr>"
    by (simp add: parameters_def)
  have v: "visits_at ''CRS'' ?evs = [example_abandoned, example_served]"
    by (simp add: visits_at_def)
  have w: "wait_of example_abandoned = 1 / 2" "wait_of example_served = 0"
    by (simp_all add: wait_of_def example_abandoned_def example_served_def)
  from abandonments_in_waiting_times[OF example_run p] obtain s m
    where s: "(node_stats_init(''CRS'' \<mapsto>
       \<lparr>waiting_times = [1 / 2, 0], service_times = [0, 1 / 4], queue_lengths = [1, 0],
        utilization = [1, 1 / 10], abandonment_count = 1\<rparr>)) ''CRS'' = Some s"
      and m: "compute_metrics s = Inr m"
      and a: "average_waiting_time m =
               (if visits_at ''CRS'' ?evs = [] then 0
                else sum_list (map wait_of (visits_at ''CRS'' ?evs)) /
                     real (length (visits_at ''CRS'' ?evs)))"
    by blast
  from s have s': "s = \<lparr>waiting_times = [1 / 2, 0], service_times = [0, 1 / 4],
        queue_lengths = [1, 0], utilization = [1, 1 / 10], abandonment_count = 1\<rparr>"
    by simp
  from a have "average_waiting_time m = 1 / 4" by (simp add: v w)
  then show ?thesis using example_run p m s' by blast
qed

section \<open>Bounds of the metrics\<close>

lemma sum_list_nonneg_real: "(\<forall>x \<in> set xs. (0::real) \<le> x) \<Longrightarrow> 0 \<le> sum_list xs"
  by (induction xs) auto

lemma sum_list_le_length: "(\<forall>x \<in> set xs. (x::real) \<le> 1) \<Longrightarrow> sum_list xs \<le> real (length xs)"
  by (induction xs) auto

lemma mean_nonneg: "(\<forall>x \<in> set xs. (0::real) \<le> x) \<Longrightarrow> 0 \<le> sum_list xs / real (length xs)"
  by (simp add: sum_list_nonneg_real)

lemma mean_le_one:
  assumes "\<forall>x \<in> set xs. (x::real) \<le> 1" and "xs \<noteq> []"
  shows "sum_list xs / real (length xs) \<le> 1"
proof -
  have "0 < real (length xs)" using assms(2) by simp
  then show ?thesis using sum_list_le_length[OF assms(1)] by (simp add: divide_le_eq)
qed

lemma rate_bounds:
  assumes "0 \<le> (a::int)" and "0 \<le> (n::int)" and "n + a \<noteq> 0"
  shows "0 \<le> real_of_int a / real_of_int (n + a) \<and> real_of_int a / real_of_int (n + a) \<le> 1"
proof -
  have pos: "0 < real_of_int (n + a)" using assms by simp
  have "real_of_int a \<le> real_of_int (n + a)" using assms by simp
  then show ?thesis using pos assms(1) by (simp add: divide_le_eq)
qed

text \<open>
  C7: after any run whose observations are as the library and the random source
  guarantee them, the metrics of every station are defined, the abandonment rate and the
  average utilization lie between 0 and 1, and the average waiting time, the average
  service time and the average queue length are not negative.
\<close>

theorem metrics_within_bounds:
  assumes "\<forall>e \<in> set evs. obs_ok (fst e) (snd e)" and "parameters node = Some p"
  shows "\<exists>st s m. run_visits parameters evs node_stats_init = Inr st \<and> st node = Some s \<and>
           compute_metrics s = Inr m \<and>
           0 \<le> abandonment_rate m \<and> abandonment_rate m \<le> 1 \<and>
           0 \<le> average_utilization m \<and> average_utilization m \<le> 1 \<and>
           0 \<le> average_waiting_time m \<and> 0 \<le> average_service_time m \<and>
           0 \<le> average_queue_length m"
proof -
  let ?vs = "visits_at node evs"
  let ?s = "record_all NodeStats_init ?vs (servers p)"
  have known: "\<forall>e \<in> set evs. parameters (fst e) \<noteq> None"
    using assms(1) by (auto simp: obs_ok_def split: option.splits)
  have init: "\<forall>n. parameters n \<noteq> None \<longrightarrow> node_stats_init n \<noteq> None"
    by (simp add: node_stats_init_def)
  from run_visits_total[OF known init] obtain st
    where run: "run_visits parameters evs node_stats_init = Inr st" by blast
  have st: "st node = Some ?s" by (rule station_after_run[OF run assms(2)])
  have ok: "\<forall>ob \<in> set ?vs. obs_ok node ob"
    using assms(1) by (auto simp: visits_at_def)
  have srv: "0 < servers p" using parameters_positive[OF assms(2)] by simp
  have w: "\<forall>x \<in> set (waiting_times ?s). 0 \<le> x"
    using ok by (auto simp: record_all_waiting NodeStats_init_def wait_of_def obs_ok_def)
  have sv: "\<forall>x \<in> set (service_times ?s). 0 \<le> x"
    using ok by (auto simp: record_all_service NodeStats_init_def service_of_def obs_ok_def)
  have q: "\<forall>x \<in> set (map real (queue_lengths ?s)). 0 \<le> x"
    by auto
  have u0: "\<forall>x \<in> set (utilization ?s). 0 \<le> x"
    using srv by (auto simp: record_all_utilization NodeStats_init_def)
  have u1: "\<forall>x \<in> set (utilization ?s). x \<le> 1"
  proof
    fix x assume "x \<in> set (utilization ?s)"
    then obtain ob where ob: "ob \<in> set ?vs"
      and x: "x = real (length (users (resource_seen ob))) / real_of_int (servers p)"
      by (auto simp: record_all_utilization NodeStats_init_def)
    from ok ob have "int (length (users (resource_seen ob))) \<le> servers p"
      using assms(2) by (auto simp: obs_ok_def)
    then have "real (length (users (resource_seen ob))) \<le> real_of_int (servers p)"
      by linarith
    then show "x \<le> 1" using x srv by (simp add: divide_le_eq)
  qed
  have a: "0 \<le> abandonment_count ?s"
    by (simp add: record_all_abandonment NodeStats_init_def)
  let ?m = "\<lparr>average_waiting_time =
            (if waiting_times ?s = [] then 0
             else sum_list (waiting_times ?s) / real (length (waiting_times ?s))),
          average_service_time =
            (if service_times ?s = [] then 0
             else sum_list (service_times ?s) / real (length (service_times ?s))),
          average_queue_length =
            (if queue_lengths ?s = [] then 0
             else sum_list (map real (queue_lengths ?s)) / real (length (queue_lengths ?s))),
          average_utilization =
            (if utilization ?s = [] then 0
             else sum_list (utilization ?s) / real (length (utilization ?s))),
          abandonment_rate =
            (if int (length (waiting_times ?s)) + abandonment_count ?s = 0 then 0
             else real_of_int (abandonment_count ?s) /
                  real_of_int (int (length (waiting_times ?s)) + abandonment_count ?s))\<rparr>"
  have m: "compute_metrics ?s = Inr ?m" by (rule compute_metrics_eq)
  have b1: "0 \<le> abandonment_rate ?m \<and> abandonment_rate ?m \<le> 1"
    using rate_bounds[OF a, of "int (length (waiting_times ?s))"] by simp
  have b2: "0 \<le> average_utilization ?m"
    using mean_nonneg[OF u0] by simp
  have b3: "average_utilization ?m \<le> 1"
    using mean_le_one[OF u1] by simp
  have b4: "0 \<le> average_waiting_time ?m"
    using mean_nonneg[OF w] by simp
  have b5: "0 \<le> average_service_time ?m"
    using mean_nonneg[OF sv] by simp
  have b6: "0 \<le> average_queue_length ?m"
    using mean_nonneg[OF q] by simp
  show ?thesis
    using run st m b1 b2 b3 b4 b5 b6 by blast
qed

theorem metrics_within_bounds_witness:
  "obs_ok ''CRS'' example_abandoned \<and> obs_ok ''CRS'' example_served \<and>
   parameters ''CRS'' = Some \<lparr>mu = 1 / 2, servers = 10\<rparr> \<and>
   (\<exists>st s m. run_visits parameters [(''CRS'', example_abandoned), (''CRS'', example_served)]
                node_stats_init = Inr st \<and> st ''CRS'' = Some s \<and>
           compute_metrics s = Inr m \<and>
           0 \<le> abandonment_rate m \<and> abandonment_rate m \<le> 1 \<and>
           0 \<le> average_utilization m \<and> average_utilization m \<le> 1 \<and>
           0 \<le> average_waiting_time m \<and> 0 \<le> average_service_time m \<and>
           0 \<le> average_queue_length m)"
proof -
  have ok: "\<forall>e \<in> set [(''CRS'', example_abandoned), (''CRS'', example_served)].
              obs_ok (fst e) (snd e)"
    by (simp add: obs_ok_def parameters_def example_abandoned_def example_served_def)
  have p: "parameters ''CRS'' = Some \<lparr>mu = 1 / 2, servers = 10\<rparr>"
    by (simp add: parameters_def)
  have ok': "obs_ok ''CRS'' example_abandoned \<and> obs_ok ''CRS'' example_served"
    using ok by simp
  show ?thesis
    using ok' p metrics_within_bounds[OF ok p] by blast
qed

section \<open>The abandonment rate\<close>

text \<open>
  C2: the abandonment rate is stated to be abandoned / (abandoned + completed). At a
  station where one customer abandoned and one was served, compute_metrics returns 1/3
  and not 1/2: the abandoned pass is in the waiting times too, so total_customers counts
  it twice.
\<close>

theorem abandonment_rate_counts_abandonments_twice:
  "performance_metrics [(''CRS'', example_abandoned), (''CRS'', example_served)] ''CRS'' =
     Inr \<lparr>average_waiting_time = 1 / 4, average_service_time = 1 / 8,
          average_queue_length = 1 / 2, average_utilization = 11 / 20,
          abandonment_rate = 1 / 3\<rparr>"
  unfolding performance_metrics_def example_run
  by (simp add: then_do_def subscript_def compute_metrics_def mean_def true_div_def)

section \<open>Construction and classification of the pathways\<close>

lemma customer_pathway_classified:
  assumes "customer_pathway tp draws g = Some (Inr (pathway, g', rest))"
  shows "g' = (if length pathway = 2
               then g\<lparr>first_call_resolution_count := first_call_resolution_count g + 1\<rparr>
               else g\<lparr>transfer_count := transfer_count g + (int (length pathway) - 2)\<rparr>)"
  using assms by (auto simp: customer_pathway_def split: option.splits sum.splits)

lemma construct_paths_counts:
  assumes "construct_paths tp ids draws g0 = Some (Inr (paths, g, rest))"
  shows "length paths = length ids \<and>
         first_call_resolution_count g =
           first_call_resolution_count g0 + int (length (filter (\<lambda>p. length p = 2) paths)) \<and>
         transfer_count g =
           transfer_count g0 +
           sum_list (map (\<lambda>p. int (length p) - 2) (filter (\<lambda>p. length p \<noteq> 2) paths))"
  using assms
proof (induction ids arbitrary: draws g0 paths)
  case Nil
  then show ?case by simp
next
  case (Cons c cs)
  from Cons.prems obtain pathway g1 d1 ps where
    cp: "customer_pathway tp draws g0 = Some (Inr (pathway, g1, d1))" and
    rec: "construct_paths tp cs d1 g1 = Some (Inr (ps, g, rest))" and
    paths: "paths = pathway # ps"
    by (auto split: option.splits sum.splits)
  note ih = Cons.IH[OF rec]
  note g1 = customer_pathway_classified[OF cp]
  show ?case
  proof (cases "length pathway = 2")
    case True
    then show ?thesis using ih g1 paths by simp
  next
    case False
    then show ?thesis using ih g1 paths by simp
  qed
qed

lemma pathway_loop_grows:
  "pathway_loop tp c pathway draws = Some (Inr (pw, rest)) \<Longrightarrow> length pathway \<le> length pw"
proof (induction tp c pathway draws rule: pathway_loop.induct)
  case (1 tp current_node pathway draws)
  note prem = "1.prems"[unfolded pathway_loop.simps[of tp current_node pathway draws]]
  show ?case
  proof (cases "current_node = ''Completed Support''")
    case True
    then show ?thesis using prem by simp
  next
    case False
    from prem False obtain next_nodes where tp: "tp current_node = Some next_nodes"
      by (auto split: option.splits)
    from prem False tp obtain next_node d' where
      w: "weighted_random_choice next_nodes draws = Some (Inr (next_node, d'))"
      by (auto split: option.splits sum.splits)
    show ?thesis
    proof (cases "next_node = ''Completed Support''")
      case True
      then show ?thesis using prem False tp w by simp
    next
      case nt: False
      have "pathway_loop tp next_node (pathway @ [next_node]) d' = Some (Inr (pw, rest))"
        using prem False tp w nt by simp
      from "1.IH"[OF False tp w _ _ nt this] show ?thesis by simp
    qed
  qed
qed

lemma np_random_choice_member:
  "np_random_choice a p draws = Some (Inr (x, draws')) \<Longrightarrow> x \<in> set a"
  by (auto simp: np_random_choice_def Let_def split: if_splits list.splits)

lemma weighted_random_choice_member:
  "weighted_random_choice choices draws = Some (Inr (x, draws')) \<Longrightarrow> x \<in> fst ` set choices"
  using np_random_choice_member[of "map fst choices" "map snd choices" draws x draws']
  by (auto simp: weighted_random_choice_def split: if_splits)

lemma reference_pathway_at_least_two:
  assumes "customer_pathway transition_probabilities draws g = Some (Inr (pathway, g', rest))"
  shows "2 \<le> length pathway"
proof -
  let ?crs = "[(''TSD'', 1 / 10), (''AI/Robotics'', 3 / 10), (''PGT'', 1 / 10), (''CSD'', 5 / 10 :: real)]"
  have tp: "transition_probabilities ''CRS'' = Some ?crs"
    by (simp add: transition_probabilities_def)
  from assms obtain d where loop: "pathway_loop transition_probabilities ''CRS'' [''CRS''] draws =
      Some (Inr (pathway, d))"
    by (auto simp: customer_pathway_def split: option.splits sum.splits)
  note loop' = loop[unfolded pathway_loop.simps[of transition_probabilities "''CRS''" "[''CRS'']" draws]]
  from loop' tp obtain next_node d' where
    w: "weighted_random_choice ?crs draws = Some (Inr (next_node, d'))"
    by (auto split: option.splits sum.splits)
  from weighted_random_choice_member[OF w] have nt: "next_node \<noteq> ''Completed Support''"
    by auto
  have "pathway_loop transition_probabilities next_node ([''CRS''] @ [next_node]) d' =
          Some (Inr (pathway, d))"
    using loop' tp w nt by simp
  from pathway_loop_grows[OF this] show ?thesis by simp
qed

lemma example_paths:
  "construct_paths transition_probabilities [customer_id 0, customer_id 1]
     [1 / 2, 1 / 2, 1 / 20, 1 / 10, 9 / 10] GeneStats_init =
   Some (Inr ([[''CRS'', ''CSD''], [''CRS'', ''TSD'', ''CSD'']],
              \<lparr>first_call_resolution_count = 1, transfer_count = 1\<rparr>, []))"
  by (simp add: customer_pathway_def pathway_loop.simps weighted_random_choice_def
     np_random_choice_def transition_probabilities_def atol_def searchsorted_right_def
     GeneStats_init_def Let_def)

text \<open>
  C1, as the code has it: a customer whose pathway has exactly two stations, the entry
  station CRS and the one it was routed to, is counted as a first-call resolution
  (first_call_resolution_count + 1); a customer whose pathway has three or more stations
  adds (number of stations - 2) to transfer_count. Consequently, once the pathways of all
  customers are constructed and each has at least two stations, as every pathway of the
  reference table has, transfer_count has grown by the sum over the pathways of three or
  more stations of (stations - 2), and the first-call resolutions plus the customers with
  three or more stations account for all constructed pathways.
\<close>

theorem classification_by_design:
  assumes "construct_paths tp ids draws g0 = Some (Inr (paths, g, rest))"
    and "\<forall>p \<in> set paths. 2 \<le> length p"
  shows "length paths = length ids \<and>
         first_call_resolution_count g =
           first_call_resolution_count g0 + int (length (filter (\<lambda>p. length p = 2) paths)) \<and>
         transfer_count g =
           transfer_count g0 +
           sum_list (map (\<lambda>p. int (length p) - 2) (filter (\<lambda>p. 3 \<le> length p) paths)) \<and>
         (first_call_resolution_count g - first_call_resolution_count g0) +
           int (length (filter (\<lambda>p. 3 \<le> length p) paths)) = int (length ids) \<and>
         (\<forall>d h pathway h' r. customer_pathway tp d h = Some (Inr (pathway, h', r)) \<longrightarrow>
            (length pathway = 2 \<longrightarrow>
               h' = h\<lparr>first_call_resolution_count := first_call_resolution_count h + 1\<rparr>) \<and>
            (3 \<le> length pathway \<longrightarrow>
               h' = h\<lparr>transfer_count := transfer_count h + (int (length pathway) - 2)\<rparr>))"
proof -
  have eq: "filter (\<lambda>p. length p \<noteq> 2) paths = filter (\<lambda>p. 3 \<le> length p) paths"
    using assms(2) by (intro filter_cong) auto
  have split: "length (filter (\<lambda>p. length p = 2) paths) +
               length (filter (\<lambda>p. length p \<noteq> 2) paths) = length paths"
    using sum_length_filter_compl[of "\<lambda>p. length p = 2" paths] by simp
  have one: "\<forall>d h pathway h' r. customer_pathway tp d h = Some (Inr (pathway, h', r)) \<longrightarrow>
            (length pathway = 2 \<longrightarrow>
               h' = h\<lparr>first_call_resolution_count := first_call_resolution_count h + 1\<rparr>) \<and>
            (3 \<le> length pathway \<longrightarrow>
               h' = h\<lparr>transfer_count := transfer_count h + (int (length pathway) - 2)\<rparr>)"
  proof (intro allI impI)
    fix d h pathway h' r
    assume cp: "customer_pathway tp d h = Some (Inr (pathway, h', r))"
    note c = customer_pathway_classified[OF cp]
    show "(length pathway = 2 \<longrightarrow>
             h' = h\<lparr>first_call_resolution_count := first_call_resolution_count h + 1\<rparr>) \<and>
          (3 \<le> length pathway \<longrightarrow>
             h' = h\<lparr>transfer_count := transfer_count h + (int (length pathway) - 2)\<rparr>)"
      using c by (cases "length pathway = 2") simp_all
  qed
  show ?thesis
    using construct_paths_counts[OF assms(1)] eq split one by simp
qed

theorem classification_by_design_witness:
  "construct_paths transition_probabilities [customer_id 0, customer_id 1]
     [1 / 2, 1 / 2, 1 / 20, 1 / 10, 9 / 10] GeneStats_init =
   Some (Inr ([[''CRS'', ''CSD''], [''CRS'', ''TSD'', ''CSD'']],
              \<lparr>first_call_resolution_count = 1, transfer_count = 1\<rparr>, [])) \<and>
   2 \<le> length [''CRS'', ''CSD''] \<and> 2 \<le> length [''CRS'', ''TSD'', ''CSD''] \<and>
   transfer_count \<lparr>first_call_resolution_count = 1, transfer_count = 1\<rparr> =
     transfer_count GeneStats_init +
     sum_list (map (\<lambda>p. int (length p) - 2)
       (filter (\<lambda>p. 3 \<le> length p) [[''CRS'', ''CSD''], [''CRS'', ''TSD'', ''CSD'']])) \<and>
   (first_call_resolution_count \<lparr>first_call_resolution_count = 1, transfer_count = 1\<rparr> -
      first_call_resolution_count GeneStats_init) +
     int (length (filter (\<lambda>p. 3 \<le> length p) [[''CRS'', ''CSD''], [''CRS'', ''TSD'', ''CSD'']])) =
     int (length [customer_id 0, customer_id 1])"
proof -
  have len: "\<forall>p \<in> set [[''CRS'', ''CSD''], [''CRS'', ''TSD'', ''CSD'']]. 2 \<le> length p"
    by simp
  from classification_by_design[OF example_paths len]
  show ?thesis using example_paths by simp
qed

text \<open>
  The pathway CRS, CSD has two stations, not one; it is counted as a first-call
  resolution, and transfer_count does not grow by (2 - 1).
\<close>

theorem classification_counterexample:
  "customer_pathway transition_probabilities [1 / 2, 1 / 2] GeneStats_init =
     Some (Inr ([''CRS'', ''CSD''],
                \<lparr>first_call_resolution_count = 1, transfer_count = 0\<rparr>, [])) \<and>
   length [''CRS'', ''CSD''] \<noteq> 1 \<and>
   transfer_count \<lparr>first_call_resolution_count = 1, transfer_count = 0\<rparr> \<noteq>
     transfer_count GeneStats_init + (int (length [''CRS'', ''CSD'']) - 1)"
  by (simp add: customer_pathway_def pathway_loop.simps weighted_random_choice_def
     np_random_choice_def transition_probabilities_def atol_def searchsorted_right_def
     GeneStats_init_def Let_def)

section \<open>The arrival process\<close>

lemma customer_arrivals_loop_ids:
  "map fst (customer_arrivals_loop is now draws) = map customer_id is"
  by (induction "is" arbitrary: now) simp_all

text \<open>
  C9: the arrival process starts exactly TOTAL_CUSTOMERS customer processes, Customer_0
  to Customer_29999, whatever the inter-arrival variates are.
\<close>

theorem arrivals_create_total_customers:
  "int (length (customer_arrivals draws)) = TOTAL_CUSTOMERS \<and>
   map fst (customer_arrivals draws) = map customer_id [0 ..< nat TOTAL_CUSTOMERS]"
proof -
  have ids: "map fst (customer_arrivals draws) = map customer_id [0 ..< nat TOTAL_CUSTOMERS]"
    unfolding customer_arrivals_def by (rule customer_arrivals_loop_ids)
  have "length (map fst (customer_arrivals draws)) = nat TOTAL_CUSTOMERS"
    unfolding ids by simp
  then have "length (customer_arrivals draws) = nat TOTAL_CUSTOMERS" by simp
  moreover have "0 \<le> TOTAL_CUSTOMERS" by (simp add: TOTAL_CUSTOMERS_def)
  ultimately show ?thesis using ids by simp
qed

section \<open>An entry station that routes to the terminal state\<close>

















end
